theory Spec2Isabelle
  imports Complex_Main "HOL-Library.Char_ord" "HOL-Library.List_Lexorder" "HOL-Library.Sublist"
begin

section \<open>The JavaScript values the handlers compute with\<close>

text \<open>
  The router \<^verbatim>\<open>src/routers/hero.js\<close> reads its inputs from \<^verbatim>\<open>req.query\<close>,
  \<^verbatim>\<open>req.params\<close> and \<^verbatim>\<open>req.body\<close> and combines them with the operators of the
  language: \<^verbatim>\<open>isNaN\<close>, \<^verbatim>\<open>parseInt\<close>, \<^verbatim>\<open>-\<close>, \<^verbatim>\<open>*\<close>, \<^verbatim>\<open>+\<close>, \<^verbatim>\<open>==\<close>, string
  concatenation and \<^verbatim>\<open>new RegExp\<close>. This section fixes what these do.

  A Number is \<open>NaN\<close>, an infinity or a finite value. Finite values are kept as exact
  rationals: the model agrees with IEEE doubles wherever no rounding happens, in
  particular on all integers of magnitude up to \<open>2^53\<close>; \<open>-0\<close> is not told apart
  from \<open>0\<close>. Strings are lists of ASCII characters.
\<close>

datatype jsnum = NaN | Fin rat | PInf | NInf

text \<open>
  A value held by a request parameter or a local variable: \<^verbatim>\<open>undefined\<close> (the
  parameter is absent), a string, or an integer Number (the literal \<^verbatim>\<open>1\<close> that
  \<^verbatim>\<open>GET /heroes\<close> assigns to \<^verbatim>\<open>page\<close>, or an integer of a JSON body).
\<close>

datatype jsval = Undefined | Str string | IntV int

subsection \<open>Arithmetic\<close>

fun js_neg :: "jsnum \<Rightarrow> jsnum" where
  "js_neg NaN = NaN"
| "js_neg (Fin r) = Fin (- r)"
| "js_neg PInf = NInf"
| "js_neg NInf = PInf"

fun js_add :: "jsnum \<Rightarrow> jsnum \<Rightarrow> jsnum" where
  "js_add NaN _ = NaN"
| "js_add _ NaN = NaN"
| "js_add (Fin a) (Fin b) = Fin (a + b)"
| "js_add PInf NInf = NaN"
| "js_add NInf PInf = NaN"
| "js_add PInf _ = PInf"
| "js_add NInf _ = NInf"
| "js_add (Fin a) PInf = PInf"
| "js_add (Fin a) NInf = NInf"

definition js_sub :: "jsnum \<Rightarrow> jsnum \<Rightarrow> jsnum" where
  "js_sub a b = js_add a (js_neg b)"

definition js_sign :: "jsnum \<Rightarrow> int" where
  "js_sign a =
     (case a of NaN \<Rightarrow> 0 | Fin r \<Rightarrow> (if r < 0 then - 1 else if r = 0 then 0 else 1)
      | PInf \<Rightarrow> 1 | NInf \<Rightarrow> - 1)"

fun js_mul :: "jsnum \<Rightarrow> jsnum \<Rightarrow> jsnum" where
  "js_mul NaN _ = NaN"
| "js_mul _ NaN = NaN"
| "js_mul (Fin a) (Fin b) = Fin (a * b)"
| "js_mul a b =
     (if js_sign a * js_sign b = 0 then NaN
      else if 0 < js_sign a * js_sign b then PInf else NInf)"

subsection \<open>Strings to Numbers\<close>

text \<open>
  \<^verbatim>\<open>Number(s)\<close>, which \<^verbatim>\<open>isNaN(s)\<close>, \<^verbatim>\<open>s - 1\<close> and \<^verbatim>\<open>s == 1\<close> apply to a string:
  white space is trimmed on both sides; the empty string is \<open>0\<close>; then a binary, octal
  or hexadecimal literal with its prefix, or an optionally signed decimal literal (digits,
  fraction, exponent) or \<^verbatim>\<open>Infinity\<close>; anything else is \<open>NaN\<close>.
\<close>

definition is_ws :: "char \<Rightarrow> bool" where
  "is_ws c \<longleftrightarrow> c = CHR 0x09 \<or> c = CHR 0x0A \<or> c = CHR 0x0B \<or> c = CHR 0x0C \<or> c = CHR 0x0D \<or> c = CHR '' ''"

definition trim :: "string \<Rightarrow> string" where
  "trim s = rev (dropWhile is_ws (rev (dropWhile is_ws s)))"

definition digit_of :: "char \<Rightarrow> nat option" where
  "digit_of c =
     (if CHR ''0'' \<le> c \<and> c \<le> CHR ''9'' then Some (of_char c - 48)
      else if CHR ''a'' \<le> c \<and> c \<le> CHR ''z'' then Some (of_char c - 87)
      else if CHR ''A'' \<le> c \<and> c \<le> CHR ''Z'' then Some (of_char c - 55)
      else None)"

definition is_radix_digit :: "nat \<Rightarrow> char \<Rightarrow> bool" where
  "is_radix_digit R c = (case digit_of c of None \<Rightarrow> False | Some d \<Rightarrow> d < R)"

definition radix_val :: "nat \<Rightarrow> string \<Rightarrow> nat" where
  "radix_val R s = foldl (\<lambda>a c. R * a + (case digit_of c of None \<Rightarrow> 0 | Some d \<Rightarrow> d)) 0 s"

definition non_decimal_literal :: "string \<Rightarrow> jsnum option" where
  "non_decimal_literal s =
     (case s of
        a # b # ds \<Rightarrow>
          (let R = (if b = CHR ''x'' \<or> b = CHR ''X'' then 16
                    else if b = CHR ''o'' \<or> b = CHR ''O'' then 8
                    else if b = CHR ''b'' \<or> b = CHR ''B'' then 2 else (0::nat))
           in if a = CHR ''0'' \<and> R \<noteq> 0
              then Some (if ds \<noteq> [] \<and> list_all (is_radix_digit R) ds
                         then Fin (of_nat (radix_val R ds)) else NaN)
              else None)
      | _ \<Rightarrow> None)"

definition exponent_part :: "string \<Rightarrow> int option" where
  "exponent_part s =
     (case s of
        [] \<Rightarrow> Some 0
      | e # t \<Rightarrow>
          if e = CHR ''e'' \<or> e = CHR ''E'' then
            (let (neg, ds) = (case t of
                                [] \<Rightarrow> (False, [])
                              | c # u \<Rightarrow> if c = CHR ''-'' then (True, u)
                                         else if c = CHR ''+'' then (False, u) else (False, t))
             in if ds \<noteq> [] \<and> list_all (is_radix_digit 10) ds
                then Some ((if neg then - 1 else 1) * int (radix_val 10 ds)) else None)
          else None)"

definition unsigned_decimal_literal :: "string \<Rightarrow> jsnum" where
  "unsigned_decimal_literal s =
     (if s = ''Infinity'' then PInf
      else
        let ip = takeWhile (is_radix_digit 10) s;
            r1 = dropWhile (is_radix_digit 10) s;
            fp = (case r1 of [] \<Rightarrow> [] | c # t \<Rightarrow> if c = CHR ''.'' then takeWhile (is_radix_digit 10) t else []);
            r2 = (case r1 of [] \<Rightarrow> [] | c # t \<Rightarrow> if c = CHR ''.'' then dropWhile (is_radix_digit 10) t else r1)
        in if ip = [] \<and> fp = [] then NaN
           else (case exponent_part r2 of
                   None \<Rightarrow> NaN
                 | Some e \<Rightarrow>
                     let m = of_nat (radix_val 10 ip) + of_nat (radix_val 10 fp) / 10 ^ length fp
                     in Fin (if 0 \<le> e then m * 10 ^ nat e else m / 10 ^ nat (- e))))"

definition string_to_number :: "string \<Rightarrow> jsnum" where
  "string_to_number s =
     (let t = trim s in
      if t = [] then Fin 0
      else (case non_decimal_literal t of
              Some n \<Rightarrow> n
            | None \<Rightarrow>
                (case t of
                   [] \<Rightarrow> Fin 0
                 | c # u \<Rightarrow> if c = CHR ''-'' then js_neg (unsigned_decimal_literal u)
                            else if c = CHR ''+'' then unsigned_decimal_literal u
                            else unsigned_decimal_literal t)))"

text \<open>\<^verbatim>\<open>Number(v)\<close> on a value: \<^verbatim>\<open>Number(undefined)\<close> is \<open>NaN\<close>.\<close>

fun to_number :: "jsval \<Rightarrow> jsnum" where
  "to_number Undefined = NaN"
| "to_number (Str s) = string_to_number s"
| "to_number (IntV i) = Fin (of_int i)"

definition isNaN :: "jsval \<Rightarrow> bool" where
  "isNaN v \<longleftrightarrow> to_number v = NaN"

text \<open>
  \<^verbatim>\<open>v == n\<close> for a Number \<open>n\<close>: \<^verbatim>\<open>undefined\<close> equals no Number, a string is
  converted first, and \<open>NaN\<close> equals nothing.
\<close>

fun loose_eq_num :: "jsval \<Rightarrow> jsnum \<Rightarrow> bool" where
  "loose_eq_num Undefined n = False"
| "loose_eq_num v n = (to_number v \<noteq> NaN \<and> to_number v = n)"

subsection \<open>Values to strings, and \<^verbatim>\<open>parseInt\<close>\<close>

function digits_of_nat :: "nat \<Rightarrow> string" where
  "digits_of_nat n =
     (if n < 10 then [char_of (48 + n)] else digits_of_nat (n div 10) @ [char_of (48 + n mod 10)])"
  by pat_completeness auto
termination
  by (relation "measure (\<lambda>n. n)") auto

declare digits_of_nat.simps [simp del]

text \<open>
  \<^verbatim>\<open>String(v)\<close>, as string concatenation and \<^verbatim>\<open>parseInt\<close> apply it. An integer
  prints in decimal (for magnitudes below \<open>10^21\<close>).
\<close>

fun to_string :: "jsval \<Rightarrow> string" where
  "to_string Undefined = ''undefined''"
| "to_string (Str s) = s"
| "to_string (IntV i) = (if i < 0 then CHR ''-'' # digits_of_nat (nat (- i)) else digits_of_nat (nat i))"

text \<open>
  \<^verbatim>\<open>parseInt(v)\<close> with no radix: leading white space is dropped, then a sign, then
  a \<^verbatim>\<open>0x\<close> prefix selects radix 16; the longest run of digits is the value, and no digit
  at all gives \<open>NaN\<close>.
\<close>

definition parseInt :: "jsval \<Rightarrow> jsnum" where
  "parseInt v =
     (let s1 = dropWhile is_ws (to_string v);
          neg = (case s1 of [] \<Rightarrow> False | c # t \<Rightarrow> c = CHR ''-'');
          s2 = (case s1 of [] \<Rightarrow> [] | c # t \<Rightarrow> if c = CHR ''-'' \<or> c = CHR ''+'' then t else s1);
          hex = (case s2 of a # b # t \<Rightarrow> a = CHR ''0'' \<and> (b = CHR ''x'' \<or> b = CHR ''X'') | _ \<Rightarrow> False);
          R = (if hex then 16 else 10);
          s3 = (if hex then drop 2 s2 else s2);
          z = takeWhile (is_radix_digit R) s3
      in if z = [] then NaN
         else Fin (of_int ((if neg then - 1 else 1) * int (radix_val R z))))"

subsection \<open>Regular expressions\<close>

text \<open>
  The two search handlers build \<^verbatim>\<open>new RegExp("^" + text, "i")\<close> from the raw text of
  the request. The model gives a meaning to the patterns of this fragment: a leading
  \<^verbatim>\<open>^\<close>, then atoms that are an ordinary character or \<^verbatim>\<open>.\<close>, each optionally followed by
  one of the greedy quantifiers \<^verbatim>\<open>*\<close>, \<^verbatim>\<open>+\<close>, \<^verbatim>\<open>?\<close>. For every other pattern
  \<open>RegExp\<close> answers \<open>None\<close>: the constructor throws a SyntaxError there, or builds
  a pattern this development says nothing about. With the flag \<^verbatim>\<open>i\<close> letters are
  compared without case; \<^verbatim>\<open>.\<close> matches every character except a line terminator.
\<close>

datatype atom = Lit char | Dot

datatype quant = One | Star | Plus | Opt

type_synonym regex = "(atom \<times> quant) list"

definition is_syntax_char :: "char \<Rightarrow> bool" where
  "is_syntax_char c \<longleftrightarrow>
     c \<in> set [CHR ''^'', CHR ''$'', CHR 0x5C, CHR ''.'', CHR ''*'', CHR ''+'', CHR ''?'',
                CHR ''('', CHR '')'', CHR ''['', CHR '']'', CHR ''{'', CHR ''}'', CHR ''|'']"

definition parse_atom :: "char \<Rightarrow> atom option" where
  "parse_atom c = (if c = CHR ''.'' then Some Dot else if is_syntax_char c then None else Some (Lit c))"

definition parse_quant :: "char \<Rightarrow> quant option" where
  "parse_quant c =
     (if c = CHR ''*'' then Some Star else if c = CHR ''+'' then Some Plus
      else if c = CHR ''?'' then Some Opt else None)"

fun parse_items :: "string \<Rightarrow> regex option" where
  "parse_items [] = Some []"
| "parse_items [c] = map_option (\<lambda>a. [(a, One)]) (parse_atom c)"
| "parse_items (c # d # s) =
     (case parse_atom c of
        None \<Rightarrow> None
      | Some a \<Rightarrow>
          (case parse_quant d of
             None \<Rightarrow> map_option ((#) (a, One)) (parse_items (d # s))
           | Some q \<Rightarrow> map_option ((#) (a, q)) (parse_items s)))"

definition RegExp :: "string \<Rightarrow> regex option" where
  "RegExp p = (case p of [] \<Rightarrow> None | c # s \<Rightarrow> if c = CHR ''^'' then parse_items s else None)"

definition to_lower :: "char \<Rightarrow> char" where
  "to_lower c = (if CHR ''A'' \<le> c \<and> c \<le> CHR ''Z'' then char_of (of_char c + (32::nat)) else c)"

fun atom_ok :: "atom \<Rightarrow> char \<Rightarrow> bool" where
  "atom_ok (Lit a) c = (to_lower a = to_lower c)"
| "atom_ok Dot c = (c \<noteq> CHR 0x0A \<and> c \<noteq> CHR 0x0D)"

text \<open>
  \<open>match_here r s\<close>: the items of \<open>r\<close> match some prefix of \<open>s\<close>. The pattern is
  anchored at the start only, so this is \<^verbatim>\<open>regex.test(s)\<close>, which is how the store
  applies a regular expression to a field.
\<close>

fun match_here :: "regex \<Rightarrow> string \<Rightarrow> bool" where
  "match_here [] s = True"
| "match_here ((a, One) # r) [] = False"
| "match_here ((a, One) # r) (c # s) = (atom_ok a c \<and> match_here r s)"
| "match_here ((a, Opt) # r) [] = match_here r []"
| "match_here ((a, Opt) # r) (c # s) = ((atom_ok a c \<and> match_here r s) \<or> match_here r (c # s))"
| "match_here ((a, Star) # r) [] = match_here r []"
| "match_here ((a, Star) # r) (c # s) =
     ((atom_ok a c \<and> match_here ((a, Star) # r) s) \<or> match_here r (c # s))"
| "match_here ((a, Plus) # r) [] = False"
| "match_here ((a, Plus) # r) (c # s) = (atom_ok a c \<and> match_here ((a, Star) # r) s)"

section \<open>The data model\<close>

text \<open>
  Modelled from the spec: the schema files \<^verbatim>\<open>models/hero.js\<close> and
  \<^verbatim>\<open>models/comment.js\<close> are not among the sources. A hero has a store-assigned
  identifier, a name, a gender among its appearance attributes, and powerstats, a mapping
  from stat names to integers. A comment has an identifier, a reference to one hero, a
  text and the time of its insertion.
\<close>

record hero =
  hero_id :: string
  name :: string
  gender :: string
  powerstats :: "(string \<times> int) list"

record comment =
  comment_id :: nat
  hero_ref :: string
  ctext :: string
  createdAt :: nat

text \<open>A comment as read back with \<^verbatim>\<open>.populate('hero')\<close>: the reference is replaced by
  the hero it names, or by \<^verbatim>\<open>null\<close> when there is none.\<close>

record populated_comment =
  pc_id :: nat
  pc_hero :: "hero option"
  pc_text :: string
  pc_createdAt :: nat

record store =
  heroes :: "hero list"
  comments :: "comment list"

section \<open>The record store\<close>

text \<open>
  The store is an external collaborator; the handlers use \<^verbatim>\<open>find\<close>, \<^verbatim>\<open>sort\<close>,
  \<^verbatim>\<open>skip\<close>, \<^verbatim>\<open>limit\<close>, \<^verbatim>\<open>countDocuments\<close>, \<^verbatim>\<open>findById\<close>, \<^verbatim>\<open>populate\<close> and
  \<^verbatim>\<open>save\<close>. A collection is the list of its documents in insertion order. A rejected
  store call, like an exception thrown in a handler, is an error value: the handlers catch
  nothing, so it ends the request.
\<close>

datatype error =
    RegExpError string  \<comment> \<open>\<open>RegExp\<close> gave no pattern for this source text: the constructor
      throws, or the text is outside the fragment and the outcome is not modelled\<close>
  | CastError           \<comment> \<open>a filter value that is no Number where the schema wants one\<close>
  | SkipError jsnum     \<comment> \<open>a skip that is not a natural number\<close>

definition await :: "'e + 'a \<Rightarrow> ('a \<Rightarrow> 'e + 'b) \<Rightarrow> 'e + 'b" where
  "await m f = (case m of Inl e \<Rightarrow> Inl e | Inr x \<Rightarrow> f x)"

text \<open>
  The filter documents the handlers write: \<^verbatim>\<open>{name: re}\<close>,
  \<^verbatim>\<open>{'appearance.gender': v}\<close>, \<^verbatim>\<open>{'powerstats.<key>': {$gte: v}}\<close> and
  \<^verbatim>\<open>{$and: [...]}\<close>. A filter is the list of the fields of one document, all of which
  must hold.
\<close>

datatype query = Name regex | Gender jsval | Gte string jsval | And "query list"

text \<open>
  The bound of a \<^verbatim>\<open>$gte\<close> on a Number field: \<^verbatim>\<open>undefined\<close> and the empty string
  become \<^verbatim>\<open>null\<close> (\<open>None\<close>), any other string is converted, and a string that
  is no Number is a cast error.
\<close>

fun bound_of :: "jsval \<Rightarrow> jsnum option" where
  "bound_of Undefined = None"
| "bound_of (IntV i) = Some (Fin (of_int i))"
| "bound_of (Str s) = (if s = [] then None else Some (string_to_number s))"

fun js_le :: "jsnum \<Rightarrow> jsnum \<Rightarrow> bool" where
  "js_le NaN _ = False"
| "js_le _ NaN = False"
| "js_le (Fin a) (Fin b) = (a \<le> b)"
| "js_le NInf _ = True"
| "js_le _ PInf = True"
| "js_le PInf _ = False"
| "js_le _ NInf = False"

fun castable :: "query \<Rightarrow> bool" where
  "castable (Name re) = True"
| "castable (Gender v) = True"
| "castable (Gte k v) = (bound_of v \<noteq> Some NaN)"
| "castable (And qs) = list_all castable qs"

text \<open>
  Whether a hero satisfies one field of a filter. A comparison with \<^verbatim>\<open>null\<close> holds
  only of a missing field, and a hero has a gender and has integers for its stats; a
  \<^verbatim>\<open>$gte\<close> on a stat the hero does not have fails. \<^verbatim>\<open>$and\<close> is the conjunction
  of its entries (of none of them, when the array is empty).
\<close>

fun matches :: "hero \<Rightarrow> query \<Rightarrow> bool" where
  "matches h (Name re) = match_here re (name h)"
| "matches h (Gender v) = (case v of Str s \<Rightarrow> gender h = s | _ \<Rightarrow> False)"
| "matches h (Gte k v) =
     (case bound_of v of
        None \<Rightarrow> False
      | Some b \<Rightarrow> (case map_of (powerstats h) k of
                     None \<Rightarrow> False
                   | Some x \<Rightarrow> js_le b (Fin (of_int x))))"
| "matches h (And qs) = list_all (matches h) qs"

definition Hero_find :: "query list \<Rightarrow> hero list \<Rightarrow> error + hero list" where
  "Hero_find q hs =
     (if list_all castable q then Inr (filter (\<lambda>h. list_all (matches h) q) hs)
      else Inl CastError)"

definition countDocuments :: "error + 'a list \<Rightarrow> error + nat" where
  "countDocuments found = await found (\<lambda>xs. Inr (length xs))"

text \<open>
  \<^verbatim>\<open>.skip(n)\<close>: what the store does with a skip that is \<open>NaN\<close>, negative or
  fractional is not decided in this repository; the model ends the request there with
  \<open>SkipError n\<close>.
\<close>

definition skip :: "jsnum \<Rightarrow> 'a list \<Rightarrow> error + 'a list" where
  "skip n xs =
     (case n of
        Fin r \<Rightarrow> if 0 \<le> r \<and> of_int \<lfloor>r\<rfloor> = r then Inr (drop (nat \<lfloor>r\<rfloor>) xs) else Inl (SkipError n)
      | _ \<Rightarrow> Inl (SkipError n))"

definition limit :: "nat \<Rightarrow> 'a list \<Rightarrow> 'a list" where
  "limit k xs = take k xs"

definition sort_name_asc :: "hero list \<Rightarrow> hero list" where
  "sort_name_asc hs = sort_key name hs"

definition sort_createdAt_desc :: "populated_comment list \<Rightarrow> populated_comment list" where
  "sort_createdAt_desc cs = sort_key (\<lambda>c. - int (pc_createdAt c)) cs"

definition Comment_find :: "string \<Rightarrow> comment list \<Rightarrow> error + comment list" where
  "Comment_find hid cs = Inr (filter (\<lambda>c. hero_ref c = hid) cs)"

definition populate :: "hero list \<Rightarrow> comment \<Rightarrow> populated_comment" where
  "populate hs c =
     \<lparr>pc_id = comment_id c, pc_hero = List.find (\<lambda>h. hero_id h = hero_ref c) hs,
      pc_text = ctext c, pc_createdAt = createdAt c\<rparr>"

section \<open>The handlers of \<^verbatim>\<open>src/routers/hero.js\<close>\<close>

definition DEFAULT_HEROES_PER_PAGE :: nat where
  "DEFAULT_HEROES_PER_PAGE = 10"

definition DEFAULT_COMMENTS_PER_PAGE :: nat where
  "DEFAULT_COMMENTS_PER_PAGE = 3"

text \<open>
  \<^verbatim>\<open>req.query\<close> is the list of the parameters of the query string, each a string;
  \<^verbatim>\<open>req.body\<close> is the list of the properties of the JSON object of the body, in
  the order in which \<^verbatim>\<open>for (key in body)\<close> visits them. Reading a property that is not
  there gives \<^verbatim>\<open>undefined\<close>.
\<close>

definition param :: "(string \<times> string) list \<Rightarrow> string \<Rightarrow> jsval" where
  "param q k = (case map_of q k of None \<Rightarrow> Undefined | Some s \<Rightarrow> Str s)"

definition body_prop :: "(string \<times> jsval) list \<Rightarrow> string \<Rightarrow> jsval" where
  "body_prop b k = (case map_of b k of None \<Rightarrow> Undefined | Some v \<Rightarrow> v)"

text \<open>The body of a list response: \<^verbatim>\<open>{data, count, pagination: {...}}\<close>. The
  pagination object is the list of its fields, in the order the handler writes them.\<close>

record 'a listing =
  data :: "'a list"
  count :: nat
  pagination :: "(string \<times> jsnum) list"

text \<open>\<^verbatim>\<open>(page - 1) * limit\<close>, the argument of every \<^verbatim>\<open>.skip\<close>.\<close>

definition skip_of :: "jsval \<Rightarrow> nat \<Rightarrow> jsnum" where
  "skip_of page per_page = js_mul (js_sub (to_number page) (Fin 1)) (Fin (of_nat per_page))"

text \<open>\<^verbatim>\<open>Math.ceil(count / limit)\<close>, for the two page sizes, which are not zero.\<close>

definition page_count :: "nat \<Rightarrow> nat \<Rightarrow> jsnum" where
  "page_count cnt per_page = Fin (of_int \<lceil>(of_nat cnt :: rat) / of_nat per_page\<rceil>)"

text \<open>\<^verbatim>\<open>GET /heroes\<close>\<close>

definition get_heroes :: "hero list \<Rightarrow> (string \<times> string) list \<Rightarrow> error + hero listing" where
  "get_heroes hs q =
     (let page0 = param q ''page'';
          page = (if isNaN page0 then IntV 1 else page0);
          previousPage0 = js_sub (to_number page) (Fin 1);
          nextPage = js_add (parseInt page) (Fin 1);
          previousPage = (if loose_eq_num page (Fin 1) then Fin 1 else previousPage0)
      in await (countDocuments (Hero_find [] hs)) (\<lambda>cnt.
         let pageCount = page_count cnt DEFAULT_HEROES_PER_PAGE
         in await (await (Hero_find [] hs) (\<lambda>found.
                     skip (skip_of page DEFAULT_HEROES_PER_PAGE) (sort_name_asc found))) (\<lambda>skipped.
            let results = limit DEFAULT_HEROES_PER_PAGE skipped
            in Inr \<lparr>data = results, count = cnt,
                    pagination = [(''previousPage'', previousPage), (''nextPage'', nextPage),
                                  (''page'', parseInt page), (''pageCount'', pageCount)]\<rparr>)))"

text \<open>\<^verbatim>\<open>GET /heroes/:id\<close>\<close>

definition get_hero :: "hero list \<Rightarrow> string \<Rightarrow> hero list" where
  "get_hero hs hid = filter (\<lambda>h. hero_id h = hid) hs"

text \<open>\<^verbatim>\<open>POST /search/heroes/by-name\<close>\<close>

definition search_heroes_by_name ::
  "hero list \<Rightarrow> (string \<times> string) list \<Rightarrow> (string \<times> jsval) list \<Rightarrow> error + hero listing" where
  "search_heroes_by_name hs q body =
     (let page = param q ''page'';
          src = ''^'' @ to_string (body_prop body ''query'')
      in case RegExp src of
           None \<Rightarrow> Inl (RegExpError src)
         | Some qname \<Rightarrow>
             await (await (Hero_find [Name qname] hs) (\<lambda>found.
                      skip (skip_of page DEFAULT_HEROES_PER_PAGE) (sort_name_asc found))) (\<lambda>skipped.
             let results = limit DEFAULT_HEROES_PER_PAGE skipped
             in await (countDocuments (Hero_find [Name qname] hs)) (\<lambda>cnt.
                let pageCount = page_count cnt DEFAULT_HEROES_PER_PAGE
                in Inr \<lparr>data = results, count = cnt,
                        pagination = [(''page'', parseInt page), (''pageCount'', pageCount)]\<rparr>)))"

text \<open>\<^verbatim>\<open>POST /search/heroes/by-min-stats\<close>\<close>

definition min_stats_conditions :: "(string \<times> jsval) list \<Rightarrow> query list" where
  "min_stats_conditions powerstats_in = map (\<lambda>(key, v). Gte key v) powerstats_in"

definition search_heroes_by_min_stats ::
  "hero list \<Rightarrow> (string \<times> string) list \<Rightarrow> (string \<times> jsval) list \<Rightarrow> error + hero listing" where
  "search_heroes_by_min_stats hs q body =
     (let page = param q ''page'';
          conditions = min_stats_conditions body
      in await (await (Hero_find [And conditions] hs) (\<lambda>found.
                  skip (skip_of page DEFAULT_HEROES_PER_PAGE) (sort_name_asc found))) (\<lambda>skipped.
         let results = limit DEFAULT_HEROES_PER_PAGE skipped
         in await (countDocuments (Hero_find [And conditions] hs)) (\<lambda>cnt.
            let pageCount = page_count cnt DEFAULT_HEROES_PER_PAGE
            in Inr \<lparr>data = results, count = cnt,
                    pagination = [(''page'', parseInt page), (''pageCount'', pageCount)]\<rparr>)))"

text \<open>\<^verbatim>\<open>GET /search\<close>\<close>

definition search_filter :: "regex \<Rightarrow> (string \<times> string) list \<Rightarrow> query list" where
  "search_filter qname q =
     [Name qname,
      Gender (param q ''gender''),
      Gte ''intelligence'' (param q ''intelligence''),
      Gte ''strength'' (param q ''strength''),
      Gte ''speed'' (param q ''speed''),
      Gte ''durability'' (param q ''durability''),
      Gte ''power'' (param q ''power''),
      Gte ''combat'' (param q ''combat'')]"

definition get_search :: "hero list \<Rightarrow> (string \<times> string) list \<Rightarrow> error + hero listing" where
  "get_search hs q =
     (let page = param q ''page'';
          src = ''^'' @ to_string (param q ''name'')
      in case RegExp src of
           None \<Rightarrow> Inl (RegExpError src)
         | Some qname \<Rightarrow>
             await (await (Hero_find (search_filter qname q) hs) (\<lambda>found.
                      skip (skip_of page DEFAULT_HEROES_PER_PAGE) (sort_name_asc found))) (\<lambda>skipped.
             let results = limit DEFAULT_HEROES_PER_PAGE skipped
             in await (countDocuments (Hero_find [Name qname] hs)) (\<lambda>cnt.
                let pageCount = page_count cnt DEFAULT_HEROES_PER_PAGE
                in Inr \<lparr>data = results, count = cnt,
                        pagination = [(''page'', parseInt page), (''pageCount'', pageCount)]\<rparr>)))"

text \<open>
  \<^verbatim>\<open>POST /heroes/:id/comments\<close>. The identifier of the new document and the time
  of the insertion come from outside the handler. The answer is the comment read back by
  its identifier, with the new state of the store.
\<close>

definition post_hero_comments ::
  "store \<Rightarrow> string \<Rightarrow> string \<Rightarrow> nat \<Rightarrow> nat \<Rightarrow> populated_comment option \<times> store" where
  "post_hero_comments st hid commentText new_id now =
     (let c = \<lparr>comment_id = new_id, hero_ref = hid, ctext = commentText, createdAt = now\<rparr>;
          st' = st\<lparr>comments := comments st @ [c]\<rparr>;
          heroComment = map_option (populate (heroes st'))
                          (List.find (\<lambda>d. comment_id d = new_id) (comments st'))
      in (heroComment, st'))"

text \<open>\<^verbatim>\<open>GET /heroes/:id/comments\<close>\<close>

definition get_hero_comments ::
  "store \<Rightarrow> string \<Rightarrow> (string \<times> string) list \<Rightarrow> error + populated_comment listing" where
  "get_hero_comments st hid q =
     (let page = param q ''page''
      in await (await (Comment_find hid (comments st)) (\<lambda>found.
                  skip (skip_of page DEFAULT_COMMENTS_PER_PAGE)
                    (sort_createdAt_desc (map (populate (heroes st)) found)))) (\<lambda>skipped.
         let results = limit DEFAULT_COMMENTS_PER_PAGE skipped
         in await (countDocuments (Comment_find hid (comments st))) (\<lambda>cnt.
            let pageCount = page_count cnt DEFAULT_COMMENTS_PER_PAGE
            in Inr \<lparr>data = results, count = cnt,
                    pagination = [(''page'', parseInt page), (''pageCount'', pageCount)]\<rparr>)))"

section \<open>Example documents\<close>

definition flash :: hero where
  "flash = \<lparr>hero_id = ''h1'', name = ''Flash'', gender = ''Male'',
            powerstats = [(''intelligence'', 63), (''strength'', 10), (''speed'', 100),
                          (''durability'', 50), (''power'', 68), (''combat'', 32)]\<rparr>"

definition fiona :: hero where
  "fiona = \<lparr>hero_id = ''h2'', name = ''Fiona'', gender = ''Female'',
            powerstats = [(''intelligence'', 50), (''strength'', 20), (''speed'', 30),
                          (''durability'', 40), (''power'', 25), (''combat'', 45)]\<rparr>"

definition batman :: hero where
  "batman = \<lparr>hero_id = ''h3'', name = ''Batman'', gender = ''Male'',
             powerstats = [(''intelligence'', 100), (''strength'', 26), (''speed'', 27),
                           (''durability'', 50), (''power'', 47), (''combat'', 100)]\<rparr>"

text \<open>A string of decimal digits, as a page number is written in a query string.\<close>

definition is_decimal :: "string \<Rightarrow> bool" where
  "is_decimal s \<longleftrightarrow> s \<noteq> [] \<and> list_all (is_radix_digit 10) s"

text \<open>
  The words of the search endpoints, to compare the code with: \<open>s\<close> starts with
  \<open>q\<close>, letters compared without case.
\<close>

definition starts_with_ci :: "string \<Rightarrow> string \<Rightarrow> bool" where
  "starts_with_ci q s \<longleftrightarrow> prefix (map to_lower q) (map to_lower s)"

text \<open>A query string that sets the six stat thresholds of \<^verbatim>\<open>GET /search\<close> to 0.\<close>

definition all_stats_zero :: "(string \<times> string) list" where
  "all_stats_zero = [(''intelligence'', ''0''), (''strength'', ''0''), (''speed'', ''0''),
                     (''durability'', ''0''), (''power'', ''0''), (''combat'', ''0'')]"

text \<open>A store with three heroes and two comments.\<close>

definition example_store :: store where
  "example_store =
     \<lparr>heroes = [flash, fiona, batman],
      comments = [\<lparr>comment_id = 1, hero_ref = ''h1'', ctext = ''old'', createdAt = 5\<rparr>,
                  \<lparr>comment_id = 2, hero_ref = ''h3'', ctext = ''dark'', createdAt = 6\<rparr>]\<rparr>"

section \<open>Decimal strings are read as their value\<close>

lemma dec_digit_iff: "is_radix_digit 10 c \<longleftrightarrow> CHR ''0'' \<le> c \<and> c \<le> CHR ''9''"
  by (auto simp: is_radix_digit_def digit_of_def less_eq_char_def split: option.splits if_splits)

lemma dec_digit_not_special:
  assumes "is_radix_digit 10 c"
  shows "\<not> is_ws c" "c \<noteq> CHR ''-''" "c \<noteq> CHR ''+''" "c \<noteq> CHR ''x''" "c \<noteq> CHR ''X''"
    "c \<noteq> CHR ''o''" "c \<noteq> CHR ''O''" "c \<noteq> CHR ''b''" "c \<noteq> CHR ''B''" "c \<noteq> CHR ''I''" "c \<noteq> CHR ''.''"
  using assms by (auto simp: dec_digit_iff less_eq_char_def is_ws_def)

lemma trim_decimal: "is_decimal s \<Longrightarrow> trim s = s"
proof -
  assume a: "is_decimal s"
  then obtain c t where s: "s = c # t" by (cases s) (auto simp: is_decimal_def)
  from a have all: "\<forall>x\<in>set s. \<not> is_ws x" by (auto simp: is_decimal_def list_all_iff dec_digit_not_special)
  have 1: "dropWhile is_ws s = s" using all s by simp
  have "rev s \<noteq> []" using s by simp
  then obtain d u where r: "rev s = d # u" by (cases "rev s") auto
  have "d \<in> set s" using r by (metis list.set_intros(1) set_rev)
  hence "\<not> is_ws d" using all by blast
  hence 2: "dropWhile is_ws (rev s) = rev s" using r by simp
  show ?thesis by (simp add: trim_def 1 2)
qed

lemma non_decimal_literal_decimal:
  assumes "is_decimal s" shows "non_decimal_literal s = None"
proof (cases s)
  case Nil
  then show ?thesis by (simp add: non_decimal_literal_def)
next
  case (Cons a u)
  show ?thesis
  proof (cases u)
    case Nil
    then show ?thesis using Cons by (simp add: non_decimal_literal_def)
  next
    case (Cons b ds)
    have "is_radix_digit 10 b" using assms \<open>s = a # u\<close> Cons by (simp add: is_decimal_def)
    note nb = dec_digit_not_special[OF this]
    show ?thesis using \<open>s = a # u\<close> Cons nb(4-9)
      by (simp add: non_decimal_literal_def)
  qed
qed

lemma unsigned_decimal_literal_decimal:
  assumes "is_decimal s" shows "unsigned_decimal_literal s = Fin (of_nat (radix_val 10 s))"
proof -
  have all: "\<forall>x\<in>set s. is_radix_digit 10 x" using assms by (auto simp: is_decimal_def list_all_iff)
  have tw: "takeWhile (is_radix_digit 10) s = s" "dropWhile (is_radix_digit 10) s = []" using all by auto
  have "\<not> is_radix_digit 10 (CHR ''I'')" by (simp add: dec_digit_iff less_eq_char_def)
  hence ne: "s \<noteq> ''Infinity''" using all by auto
  show ?thesis using assms ne
    by (simp add: unsigned_decimal_literal_def tw exponent_part_def is_decimal_def radix_val_def)
qed

lemma string_to_number_decimal:
  assumes "is_decimal s" shows "string_to_number s = Fin (of_nat (radix_val 10 s))"
proof -
  obtain c t where s: "s = c # t" using assms by (cases s) (auto simp: is_decimal_def)
  have c: "c \<noteq> CHR ''-''" "c \<noteq> CHR ''+''" using assms s by (auto simp: is_decimal_def dec_digit_not_special)
  have ne: "s \<noteq> []" by (simp add: s)
  have "string_to_number s =
          (case s of [] \<Rightarrow> Fin 0
           | c # u \<Rightarrow> if c = CHR ''-'' then js_neg (unsigned_decimal_literal u)
                      else if c = CHR ''+'' then unsigned_decimal_literal u
                      else unsigned_decimal_literal s)"
    using ne by (simp add: string_to_number_def trim_decimal[OF assms] non_decimal_literal_decimal[OF assms])
  also have "\<dots> = unsigned_decimal_literal s" using c by (simp add: s)
  finally show ?thesis by (simp add: unsigned_decimal_literal_decimal[OF assms])
qed

lemma parseInt_decimal:
  assumes "is_decimal s" shows "parseInt (Str s) = Fin (of_nat (radix_val 10 s))"
proof -
  obtain c t where s: "s = c # t" using assms by (cases s) (auto simp: is_decimal_def)
  have all: "\<forall>x\<in>set s. is_radix_digit 10 x" using assms by (auto simp: is_decimal_def list_all_iff)
  have c: "c \<noteq> CHR ''-''" "c \<noteq> CHR ''+''" "\<not> is_ws c" using assms s by (auto simp: is_decimal_def dec_digit_not_special)
  have hex: "(case s of a # b # t \<Rightarrow> a = CHR ''0'' \<and> (b = CHR ''x'' \<or> b = CHR ''X'') | _ \<Rightarrow> False) = False"
    using all by (auto split: list.splits simp: dec_digit_not_special)
  have tw: "takeWhile (is_radix_digit 10) s = s" using all by auto
  have dw: "dropWhile is_ws s = s" using c s by simp
  have s2: "(case s of [] \<Rightarrow> [] | c # t \<Rightarrow> if c = CHR ''-'' \<or> c = CHR ''+'' then t else s) = s"
    using c by (simp add: s)
  have neg: "(case s of [] \<Rightarrow> False | c # t \<Rightarrow> c = CHR ''-'') = False"
    using c by (simp add: s)
  have ne: "s \<noteq> []" by (simp add: s)
  show ?thesis
    unfolding parseInt_def to_string.simps dw Let_def s2 neg hex
    by (simp add: tw ne)
qed

lemma digits_of_nat_decimal: "is_decimal (digits_of_nat n)"
proof (induction n rule: digits_of_nat.induct)
  case (1 n)
  have d: "\<And>k::nat. k < 10 \<Longrightarrow> is_radix_digit 10 (char_of (48 + k))"
    by (auto simp: dec_digit_iff less_eq_char_def)
  show ?case
  proof (cases "n < 10")
    case True
    then show ?thesis using d[of n] by (subst digits_of_nat.simps) (simp add: is_decimal_def)
  next
    case False
    then show ?thesis using 1 d[of "n mod 10"]
      by (subst digits_of_nat.simps) (simp add: is_decimal_def)
  qed
qed

lemma radix_val_snoc: "radix_val R (s @ [c]) = R * radix_val R s + (case digit_of c of None \<Rightarrow> 0 | Some d \<Rightarrow> d)"
  by (simp add: radix_val_def)

lemma digit_of_char_of: "k < 10 \<Longrightarrow> digit_of (char_of (48 + k)) = Some k"
  by (auto simp: digit_of_def less_eq_char_def)

lemma radix_val_digits_of_nat: "radix_val 10 (digits_of_nat n) = n"
proof (induction n rule: digits_of_nat.induct)
  case (1 n)
  show ?case
  proof (cases "n < 10")
    case True
    then show ?thesis using digit_of_char_of[of n]
      by (subst digits_of_nat.simps) (simp add: radix_val_def)
  next
    case False
    then show ?thesis using 1 digit_of_char_of[of "n mod 10"]
      by (subst digits_of_nat.simps) (simp add: radix_val_snoc)
  qed
qed


lemma await_Inr [simp]: "await (Inr x) f = f x"
  by (simp add: await_def)

lemma await_Inl [simp]: "await (Inl e) f = Inl e"
  by (simp add: await_def)

lemma Hero_find_all [simp]: "Hero_find [] hs = Inr hs"
  by (simp add: Hero_find_def)

lemma skip_nat [simp]: "skip (Fin (of_nat n)) xs = Inr (drop n xs)"
  by (simp add: skip_def)

lemma skip_of_decimal:
  assumes "is_decimal s" "1 \<le> radix_val 10 s"
  shows "skip_of (Str s) k = Fin (of_nat ((radix_val 10 s - 1) * k))"
  using assms(2) by (simp add: skip_of_def string_to_number_decimal[OF assms(1)] js_sub_def of_nat_diff)

lemma page_count_div: "page_count c k = Fin (of_int (- (- int c div int k)))"
  using ceiling_divide_eq_div[of "int c" "int k", where ?'a = rat]
  by (simp add: page_count_def)

lemma page_count_25: "page_count 25 10 = Fin 3"
  by (simp add: page_count_div)

section \<open>Pagination of the hero list\<close>

text \<open>
  C7. \<^verbatim>\<open>GET /heroes\<close> with the page an integer \<open>p \<ge> 1\<close> written in decimal
  digits in the query string (and \<open>p\<close> below \<open>2^53\<close>, where Numbers are exact): the
  handler skips \<open>(p - 1) * 10\<close> heroes of the list sorted by name and returns at
  most 10; \<open>previousPage\<close> is \<open>p - 1\<close>, except that it is 1 when \<open>p\<close> is 1;
  \<open>nextPage\<close> is \<open>p + 1\<close> whatever the number of pages is. With 25 heroes and
  page 2 the skip is 10, the limit 10, and the pagination object holds previousPage 1,
  nextPage 3, page 2 and pageCount 3. The restriction to decimal integers is needed:
  the pages \<^verbatim>\<open>1.5\<close> and \<^verbatim>\<open>1e3\<close> are numeric too, and are treated after the witness.
\<close>

theorem get_heroes_page_numbers:
  assumes "map_of q ''page'' = Some (digits_of_nat p)" and "1 \<le> p" and "p < 2 ^ 53"
  shows "get_heroes hs q =
           Inr \<lparr>data = take 10 (drop ((p - 1) * 10) (sort_key name hs)), count = length hs,
                pagination = [(''previousPage'', Fin (of_nat (if p = 1 then 1 else p - 1))),
                              (''nextPage'', Fin (of_nat (p + 1))),
                              (''page'', Fin (of_nat p)),
                              (''pageCount'', page_count (length hs) 10)]\<rparr>
         \<and> (p = 2 \<and> length hs = 25 \<longrightarrow>
              skip_of (param q ''page'') DEFAULT_HEROES_PER_PAGE = Fin 10
              \<and> DEFAULT_HEROES_PER_PAGE = 10
              \<and> map_sum id pagination (get_heroes hs q) =
                  Inr [(''previousPage'', Fin 1), (''nextPage'', Fin 3), (''page'', Fin 2), (''pageCount'', Fin 3)])"
proof -
  let ?s = "digits_of_nat p"
  have dec: "is_decimal ?s" by (rule digits_of_nat_decimal)
  have val: "radix_val 10 ?s = p" by (rule radix_val_digits_of_nat)
  have page: "param q ''page'' = Str ?s" using assms(1) by (simp add: param_def)
  have num: "to_number (Str ?s) = Fin (of_nat p)" by (simp add: string_to_number_decimal[OF dec] val)
  have pint: "parseInt (Str ?s) = Fin (of_nat p)" by (simp add: parseInt_decimal[OF dec] val)
  have nan: "\<not> isNaN (Str ?s)" by (simp add: isNaN_def num del: to_number.simps)
  have sk: "skip_of (Str ?s) 10 = Fin (of_nat ((p - 1) * 10))"
    using skip_of_decimal[OF dec, of 10] assms(2) by (simp add: val)
  have prev: "js_sub (to_number (Str ?s)) (Fin 1) = Fin (of_nat (p - 1))"
    using assms(2) by (simp add: num js_sub_def of_nat_diff del: to_number.simps)
  have eq1: "loose_eq_num (Str ?s) (Fin 1) \<longleftrightarrow> p = 1"
    by (simp add: num del: to_number.simps)
  have nxt: "js_add (parseInt (Str ?s)) (Fin 1) = Fin (of_nat (p + 1))"
    by (simp add: pint)
  have main: "get_heroes hs q =
           Inr \<lparr>data = take 10 (drop ((p - 1) * 10) (sort_key name hs)), count = length hs,
                pagination = [(''previousPage'', Fin (of_nat (if p = 1 then 1 else p - 1))),
                              (''nextPage'', Fin (of_nat (p + 1))),
                              (''page'', Fin (of_nat p)),
                              (''pageCount'', page_count (length hs) 10)]\<rparr>"
    unfolding get_heroes_def page Let_def
    by (simp add: nan prev eq1 nxt pint sk countDocuments_def DEFAULT_HEROES_PER_PAGE_def
        limit_def sort_name_asc_def del: to_number.simps loose_eq_num.simps of_nat_mult of_nat_add)
  show ?thesis
    unfolding main using sk page by (auto simp: page_count_25 DEFAULT_HEROES_PER_PAGE_def)
qed


theorem get_heroes_page_numbers_witness:
  "map_of [(''page'', ''2'')] ''page'' = Some (digits_of_nat 2) \<and> (1::nat) \<le> 2 \<and> (2::nat) < 2 ^ 53
   \<and> length (replicate 25 flash) = 25
   \<and> skip_of (param [(''page'', ''2'')] ''page'') DEFAULT_HEROES_PER_PAGE = Fin 10
   \<and> get_heroes (replicate 25 flash) [(''page'', ''2'')] =
       Inr \<lparr>data = take 10 (drop 10 (sort_key name (replicate 25 flash))), count = 25,
            pagination = [(''previousPage'', Fin 1), (''nextPage'', Fin 3),
                          (''page'', Fin 2), (''pageCount'', Fin 3)]\<rparr>"
proof -
  have d: "digits_of_nat 2 = ''2''" by code_simp
  have h: "map_of [(''page'', ''2'')] ''page'' = Some (digits_of_nat 2)" by (simp add: d)
  show ?thesis
    using get_heroes_page_numbers [OF h, of "replicate 25 flash"] h
    by (simp add: page_count_25)
qed

text \<open>
  C7, for every numeric page: the handler takes a page for numeric when \<^verbatim>\<open>isNaN\<close> is
  false of it, computes \<open>previousPage\<close> from \<^verbatim>\<open>page - 1\<close> and \<open>nextPage\<close> from
  \<^verbatim>\<open>parseInt(page) + 1\<close>. The page \<^verbatim>\<open>1.5\<close> is numeric and at least 1; its
  \<open>previousPage\<close> is \<open>1/2\<close>, which is below 1, and its \<open>nextPage\<close> is 2, not
  \<open>5/2\<close>. The page \<^verbatim>\<open>1e3\<close> is the Number 1000; its \<open>nextPage\<close> is 2, not 1001.
\<close>

theorem get_heroes_fractional_page_counterexample:
  "\<not> isNaN (param [(''page'', ''1.5'')] ''page'')
   \<and> to_number (param [(''page'', ''1.5'')] ''page'') = Fin (3 / 2)
   \<and> js_le (Fin 1) (to_number (param [(''page'', ''1.5'')] ''page''))
   \<and> get_heroes [flash, fiona, batman] [(''page'', ''1.5'')] =
       Inr \<lparr>data = [], count = 3,
            pagination = [(''previousPage'', Fin (1 / 2)), (''nextPage'', Fin 2),
                          (''page'', Fin 1), (''pageCount'', Fin 1)]\<rparr>
   \<and> \<not> js_le (Fin 1) (Fin (1 / 2))
   \<and> js_add (to_number (param [(''page'', ''1.5'')] ''page'')) (Fin 1) = Fin (5 / 2)
   \<and> Fin 2 \<noteq> Fin (5 / 2)
   \<and> to_number (param [(''page'', ''1e3'')] ''page'') = Fin 1000
   \<and> get_heroes [flash, fiona, batman] [(''page'', ''1e3'')] =
       Inr \<lparr>data = [], count = 3,
            pagination = [(''previousPage'', Fin 999), (''nextPage'', Fin 2),
                          (''page'', Fin 1), (''pageCount'', Fin 1)]\<rparr>
   \<and> Fin 2 \<noteq> Fin (1000 + 1)"
  by code_simp

section \<open>Patterns without metacharacters\<close>

lemma parse_items_literal:
  "\<not> list_ex is_syntax_char q \<Longrightarrow> parse_items q = Some (map (\<lambda>c. (Lit c, One)) q)"
proof (induction q rule: parse_items.induct)
  case 1
  then show ?case by simp
next
  case (2 c)
  then show ?case by (auto simp: parse_atom_def is_syntax_char_def)
next
  case (3 c d s)
  have nq: "parse_quant d = None" using 3(3)
    by (auto simp: parse_quant_def is_syntax_char_def)
  have a: "parse_atom c = Some (Lit c)" using 3(3)
    by (auto simp: parse_atom_def is_syntax_char_def)
  have "\<not> list_ex is_syntax_char (d # s)" using 3(3) by simp
  from 3(1)[OF a nq this] show ?case by (simp add: a nq)
qed

lemma match_here_literal:
  "match_here (map (\<lambda>c. (Lit c, One)) q) s \<longleftrightarrow> starts_with_ci q s"
proof (induction q arbitrary: s)
  case Nil
  then show ?case by (simp add: starts_with_ci_def)
next
  case (Cons c q)
  show ?case
  proof (cases s)
    case Nil
    then show ?thesis by (simp add: starts_with_ci_def)
  next
    case (Cons d t)
    then show ?thesis using Cons.IH[of t] by (auto simp: starts_with_ci_def)
  qed
qed

lemma RegExp_literal:
  "\<not> list_ex is_syntax_char q \<Longrightarrow> RegExp (''^'' @ q) = Some (map (\<lambda>c. (Lit c, One)) q)"
  by (simp add: RegExp_def parse_items_literal)

lemma RegExp_empty: "RegExp (''^'' @ []) = Some []"
  by (simp add: RegExp_def)

lemma flash_matches_fla:
  "starts_with_ci ''fla'' ''Flash'' \<and> starts_with_ci ''FLA'' ''Flash'' \<and> starts_with_ci ''Fla'' ''Flash''"
  by code_simp


section \<open>Pages of heroes\<close>

lemma param_page: "map_of q ''page'' = Some s \<Longrightarrow> param q ''page'' = Str s"
  by (simp add: param_def)

text \<open>The page of heroes that a castable filter and a page number written in decimal give.\<close>

lemma hero_page:
  assumes "list_all castable Q" and "1 \<le> p"
  shows "await (await (Hero_find Q hs) (\<lambda>found.
            skip (skip_of (Str (digits_of_nat p)) DEFAULT_HEROES_PER_PAGE) (sort_name_asc found))) k
         = k (drop ((p - 1) * 10) (sort_key name (filter (\<lambda>h. list_all (matches h) Q) hs)))"
proof -
  have sk: "skip_of (Str (digits_of_nat p)) 10 = Fin (of_nat ((p - 1) * 10))"
    using skip_of_decimal[OF digits_of_nat_decimal, of p 10] assms(2)
    by (simp add: radix_val_digits_of_nat)
  show ?thesis
    using assms(1) by (simp add: Hero_find_def sk DEFAULT_HEROES_PER_PAGE_def sort_name_asc_def
        del: of_nat_mult)
qed

lemma hero_count:
  assumes "list_all castable Q"
  shows "await (countDocuments (Hero_find Q hs)) k = k (length (filter (\<lambda>h. list_all (matches h) Q) hs))"
  using assms by (simp add: Hero_find_def countDocuments_def)

lemma parseInt_page: "parseInt (Str (digits_of_nat p)) = Fin (of_nat p)"
  by (simp add: parseInt_decimal[OF digits_of_nat_decimal] radix_val_digits_of_nat)

lemma castable_int_conditions:
  "list_all castable [And (min_stats_conditions (map (\<lambda>(k, i). (k, IntV i)) thr))]"
  by (induction thr) (auto simp: min_stats_conditions_def)

lemma matches_int_conditions:
  "matches h (And (min_stats_conditions (map (\<lambda>(k, i). (k, IntV i)) thr))) \<longleftrightarrow>
     (\<forall>(k, i)\<in>set thr. \<exists>x. map_of (powerstats h) k = Some x \<and> i \<le> x)"
  by (induction thr) (auto simp: min_stats_conditions_def split: option.splits)

section \<open>Search by minimum stats\<close>

text \<open>
  C5. \<^verbatim>\<open>POST /search/heroes/by-min-stats\<close> with a body that maps stat keys to integer
  thresholds: a hero satisfies the query the handler builds if and only if, for every key
  of the body, the hero has that stat and its value is at least the threshold; keys that
  are not in the body are not looked at. The response holds the page of exactly these
  heroes and their number. The body \<^verbatim>\<open>{speed: 100}\<close> selects exactly the heroes whose
  speed is at least 100.
\<close>

theorem min_stats_lower_bounds:
  assumes "map_of q ''page'' = Some (digits_of_nat p)" and "1 \<le> p" and "p < 2 ^ 53"
  shows "(\<forall>h. matches h (And (min_stats_conditions (map (\<lambda>(k, i). (k, IntV i)) thr))) \<longleftrightarrow>
               (\<forall>(k, i)\<in>set thr. \<exists>x. map_of (powerstats h) k = Some x \<and> i \<le> x))
       \<and> search_heroes_by_min_stats hs q (map (\<lambda>(k, i). (k, IntV i)) thr) =
           Inr \<lparr>data = take 10 (drop ((p - 1) * 10) (sort_key name
                         (filter (\<lambda>h. \<forall>(k, i)\<in>set thr. \<exists>x. map_of (powerstats h) k = Some x \<and> i \<le> x) hs))),
                count = length (filter (\<lambda>h. \<forall>(k, i)\<in>set thr. \<exists>x. map_of (powerstats h) k = Some x \<and> i \<le> x) hs),
                pagination = [(''page'', Fin (of_nat p)),
                              (''pageCount'', page_count (length (filter (\<lambda>h. \<forall>(k, i)\<in>set thr.
                                   \<exists>x. map_of (powerstats h) k = Some x \<and> i \<le> x) hs)) 10)]\<rparr>
       \<and> (\<forall>h. matches h (And (min_stats_conditions [(''speed'', IntV 100)])) \<longleftrightarrow>
               (\<exists>x. map_of (powerstats h) ''speed'' = Some x \<and> 100 \<le> x))"
proof -
  let ?body = "map (\<lambda>(k, i). (k, IntV i)) thr"
  let ?Q = "[And (min_stats_conditions ?body)]"
  have m: "\<And>h. list_all (matches h) ?Q \<longleftrightarrow>
                (\<forall>(k, i)\<in>set thr. \<exists>x. map_of (powerstats h) k = Some x \<and> i \<le> x)"
    using matches_int_conditions[of _ thr] by simp
  have res: "search_heroes_by_min_stats hs q ?body =
           Inr \<lparr>data = take 10 (drop ((p - 1) * 10) (sort_key name (filter (\<lambda>h. list_all (matches h) ?Q) hs))),
                count = length (filter (\<lambda>h. list_all (matches h) ?Q) hs),
                pagination = [(''page'', Fin (of_nat p)),
                              (''pageCount'', page_count (length (filter (\<lambda>h. list_all (matches h) ?Q) hs)) 10)]\<rparr>"
    unfolding search_heroes_by_min_stats_def Let_def param_page[OF assms(1)]
      hero_page[OF castable_int_conditions assms(2)] hero_count[OF castable_int_conditions]
    by (simp add: limit_def DEFAULT_HEROES_PER_PAGE_def parseInt_page)
  have sp: "\<And>h. matches h (And (min_stats_conditions [(''speed'', IntV 100)])) \<longleftrightarrow>
               (\<exists>x. map_of (powerstats h) ''speed'' = Some x \<and> 100 \<le> x)"
    using matches_int_conditions[of _ "[(''speed'', 100)]"] by simp
  show ?thesis
    using matches_int_conditions[of _ thr] sp res unfolding m by blast
qed


lemma digits_of_nat_1: "digits_of_nat 1 = ''1''"
  by code_simp

text \<open>
  C4. \<^verbatim>\<open>POST /search/heroes/by-min-stats\<close> with an empty body, on page 1: the query
  holds of every hero, the response holds the first 10 heroes of the whole collection in
  ascending order of name, and \<open>count\<close> is the number of all heroes.
\<close>

theorem min_stats_empty_body:
  assumes "map_of q ''page'' = Some ''1''"
  shows "search_heroes_by_min_stats hs q [] =
           Inr \<lparr>data = take DEFAULT_HEROES_PER_PAGE (sort_key name hs), count = length hs,
                pagination = [(''page'', Fin 1),
                              (''pageCount'', page_count (length hs) DEFAULT_HEROES_PER_PAGE)]\<rparr>
         \<and> (\<forall>h. list_all (matches h) [And (min_stats_conditions [])])"
proof -
  have c: "list_all castable [And (min_stats_conditions [])]"
    by (simp add: min_stats_conditions_def)
  have m: "\<And>h. list_all (matches h) [And (min_stats_conditions [])]"
    by (simp add: min_stats_conditions_def)
  have pg: "param q ''page'' = Str (digits_of_nat 1)"
    using assms unfolding digits_of_nat_1 by (simp add: param_def)
  have "search_heroes_by_min_stats hs q [] =
           Inr \<lparr>data = take DEFAULT_HEROES_PER_PAGE (sort_key name hs), count = length hs,
                pagination = [(''page'', Fin 1),
                              (''pageCount'', page_count (length hs) DEFAULT_HEROES_PER_PAGE)]\<rparr>"
    unfolding search_heroes_by_min_stats_def Let_def pg hero_page[OF c order_refl] hero_count[OF c]
    by (simp add: limit_def parseInt_page min_stats_conditions_def)
  then show ?thesis using m by blast
qed

theorem min_stats_empty_body_witness:
  "map_of [(''page'', ''1'')] ''page'' = Some ''1''
   \<and> search_heroes_by_min_stats [flash, fiona, batman] [(''page'', ''1'')] [] =
       Inr \<lparr>data = [batman, fiona, flash], count = 3,
            pagination = [(''page'', Fin 1), (''pageCount'', Fin 1)]\<rparr>"
proof -
  have h: "map_of [(''page'', ''1'')] ''page'' = Some ''1''" by simp
  have s: "take DEFAULT_HEROES_PER_PAGE (sort_key name [flash, fiona, batman]) = [batman, fiona, flash]"
    by code_simp
  have l: "length [flash, fiona, batman] = 3" by simp
  have pc: "page_count 3 DEFAULT_HEROES_PER_PAGE = Fin 1"
    by (simp add: page_count_div DEFAULT_HEROES_PER_PAGE_def)
  show ?thesis
    using min_stats_empty_body [OF h, of "[flash, fiona, batman]"] h
    unfolding s l pc by blast
qed

theorem min_stats_lower_bounds_witness:
  "map_of [(''page'', ''1'')] ''page'' = Some (digits_of_nat 1) \<and> (1::nat) \<le> 1 \<and> (1::nat) < 2 ^ 53
   \<and> matches flash (And (min_stats_conditions [(''speed'', IntV 100)]))
   \<and> \<not> matches batman (And (min_stats_conditions [(''speed'', IntV 100)]))
   \<and> search_heroes_by_min_stats [flash, fiona, batman] [(''page'', ''1'')] [(''speed'', IntV 30), (''power'', IntV 20)] =
       Inr \<lparr>data = [fiona, flash], count = 2,
            pagination = [(''page'', Fin 1), (''pageCount'', Fin 1)]\<rparr>"
proof -
  have h: "map_of [(''page'', ''1'')] ''page'' = Some (digits_of_nat 1)"
    unfolding digits_of_nat_1 by simp
  have b: "map (\<lambda>(k, i). (k, IntV i)) [(''speed'', 30), (''power'', 20)] =
             [(''speed'', IntV 30), (''power'', IntV 20)]" by simp
  have f: "filter (\<lambda>h. \<forall>(k, i)\<in>set [(''speed'', 30), (''power'', 20)].
                \<exists>x. map_of (powerstats h) k = Some x \<and> i \<le> x) [flash, fiona, batman] = [flash, fiona]"
    by (simp add: flash_def fiona_def batman_def)
  have s: "take 10 (drop ((1 - 1) * 10) (sort_key name [flash, fiona])) = [fiona, flash]" by code_simp
  have l: "length [flash, fiona] = 2" by simp
  have pc: "page_count 2 10 = Fin 1" by (simp add: page_count_div)
  have m: "(\<exists>x. map_of (powerstats flash) ''speed'' = Some x \<and> 100 \<le> x)
           \<and> \<not> (\<exists>x. map_of (powerstats batman) ''speed'' = Some x \<and> 100 \<le> x)"
    by (simp add: flash_def batman_def)
  have n: "Fin (of_nat 1) = Fin 1" by simp
  have le: "(1::nat) \<le> 1" and lt: "(1::nat) < 2 ^ 53" by simp_all
  show ?thesis
    using min_stats_lower_bounds [OF h le lt, of "[(''speed'', 30), (''power'', 20)]" "[flash, fiona, batman]"]
      m h le lt
    unfolding b f s l pc n by blast
qed

section \<open>The fields of the pagination object\<close>

text \<open>
  C10. Whenever a handler answers, the pagination object of the by-name search, of the
  min-stats search, of the combined search and of the comment listing holds exactly the
  fields \<open>page\<close> and \<open>pageCount\<close>; that of the hero list holds
  \<open>previousPage\<close>, \<open>nextPage\<close>, \<open>page\<close> and \<open>pageCount\<close>.
\<close>

theorem pagination_fields:
  "(\<forall>r. search_heroes_by_name hs q body = Inr r \<longrightarrow> map fst (pagination r) = [''page'', ''pageCount''])
   \<and> (\<forall>r. search_heroes_by_min_stats hs q body = Inr r \<longrightarrow> map fst (pagination r) = [''page'', ''pageCount''])
   \<and> (\<forall>r. get_search hs q = Inr r \<longrightarrow> map fst (pagination r) = [''page'', ''pageCount''])
   \<and> (\<forall>r. get_hero_comments st hid q = Inr r \<longrightarrow> map fst (pagination r) = [''page'', ''pageCount''])
   \<and> (\<forall>r. get_heroes hs q = Inr r \<longrightarrow>
          map fst (pagination r) = [''previousPage'', ''nextPage'', ''page'', ''pageCount''])"
proof (intro conjI allI impI)
  fix r assume "search_heroes_by_name hs q body = Inr r"
  then show "map fst (pagination r) = [''page'', ''pageCount'']"
    by (auto simp: search_heroes_by_name_def await_def Let_def split: option.splits sum.splits)
next
  fix r assume "search_heroes_by_min_stats hs q body = Inr r"
  then show "map fst (pagination r) = [''page'', ''pageCount'']"
    by (auto simp: search_heroes_by_min_stats_def await_def Let_def split: option.splits sum.splits)
next
  fix r assume "get_search hs q = Inr r"
  then show "map fst (pagination r) = [''page'', ''pageCount'']"
    by (auto simp: get_search_def await_def Let_def split: option.splits sum.splits)
next
  fix r assume "get_hero_comments st hid q = Inr r"
  then show "map fst (pagination r) = [''page'', ''pageCount'']"
    by (auto simp: get_hero_comments_def await_def Let_def split: option.splits sum.splits)
next
  fix r assume "get_heroes hs q = Inr r"
  then show "map fst (pagination r) = [''previousPage'', ''nextPage'', ''page'', ''pageCount'']"
    by (auto simp: get_heroes_def await_def Let_def split: option.splits sum.splits)
qed

lemma ex_by_name: "search_heroes_by_name [flash, fiona, batman] [(''page'', ''1'')] [(''query'', Str ''f'')] =
   Inr \<lparr>data = [fiona, flash], count = 2, pagination = [(''page'', Fin 1), (''pageCount'', Fin 1)]\<rparr>"
  by code_simp

lemma ex_min_stats: "search_heroes_by_min_stats [flash, fiona, batman] [(''page'', ''1'')] [(''speed'', IntV 30)] =
   Inr \<lparr>data = [fiona, flash], count = 2, pagination = [(''page'', Fin 1), (''pageCount'', Fin 1)]\<rparr>"
  by code_simp

lemma ex_search: "get_search [flash, fiona, batman] ((''page'', ''1'') # (''name'', ''f'') # (''gender'', ''Male'') # all_stats_zero) =
   Inr \<lparr>data = [flash], count = 2, pagination = [(''page'', Fin 1), (''pageCount'', Fin 1)]\<rparr>"
  by code_simp

lemma ex_comments: "get_hero_comments example_store ''h1'' [(''page'', ''1'')] =
   Inr \<lparr>data = [\<lparr>pc_id = 1, pc_hero = Some flash, pc_text = ''old'', pc_createdAt = 5\<rparr>], count = 1,
        pagination = [(''page'', Fin 1), (''pageCount'', Fin 1)]\<rparr>"
  by code_simp

lemma ex_heroes: "get_heroes [flash, fiona, batman] [] =
   Inr \<lparr>data = [batman, fiona, flash], count = 3,
        pagination = [(''previousPage'', Fin 1), (''nextPage'', Fin 2), (''page'', Fin 1), (''pageCount'', Fin 1)]\<rparr>"
  by code_simp


theorem pagination_fields_witness:
  "(\<exists>r. search_heroes_by_name [flash, fiona, batman] [(''page'', ''1'')] [(''query'', Str ''f'')] = Inr r
        \<and> map fst (pagination r) = [''page'', ''pageCount''])
   \<and> (\<exists>r. search_heroes_by_min_stats [flash, fiona, batman] [(''page'', ''1'')] [(''speed'', IntV 30)] = Inr r
        \<and> map fst (pagination r) = [''page'', ''pageCount''])
   \<and> (\<exists>r. get_search [flash, fiona, batman]
              ((''page'', ''1'') # (''name'', ''f'') # (''gender'', ''Male'') # all_stats_zero) = Inr r
        \<and> map fst (pagination r) = [''page'', ''pageCount''])
   \<and> (\<exists>r. get_hero_comments example_store ''h1'' [(''page'', ''1'')] = Inr r
        \<and> map fst (pagination r) = [''page'', ''pageCount''])
   \<and> (\<exists>r. get_heroes [flash, fiona, batman] [] = Inr r
        \<and> map fst (pagination r) = [''previousPage'', ''nextPage'', ''page'', ''pageCount''])"
proof -
  note a = pagination_fields [where hs = "[flash, fiona, batman]" and q = "[(''page'', ''1'')]"
      and body = "[(''query'', Str ''f'')]" and st = example_store and hid = "''h1''"]
  note b = pagination_fields [where hs = "[flash, fiona, batman]" and q = "[(''page'', ''1'')]"
      and body = "[(''speed'', IntV 30)]" and st = example_store and hid = "''h1''"]
  note c = pagination_fields [where hs = "[flash, fiona, batman]"
      and q = "(''page'', ''1'') # (''name'', ''f'') # (''gender'', ''Male'') # all_stats_zero"
      and body = "[]" and st = example_store and hid = "''h1''"]
  note d = pagination_fields [where hs = "[flash, fiona, batman]" and q = "[]"
      and body = "[]" and st = example_store and hid = "''h1''"]
  have 1: "\<exists>r. search_heroes_by_name [flash, fiona, batman] [(''page'', ''1'')] [(''query'', Str ''f'')] = Inr r
        \<and> map fst (pagination r) = [''page'', ''pageCount'']"
    using ex_by_name a by blast
  have 2: "\<exists>r. search_heroes_by_min_stats [flash, fiona, batman] [(''page'', ''1'')] [(''speed'', IntV 30)] = Inr r
        \<and> map fst (pagination r) = [''page'', ''pageCount'']"
    using ex_min_stats b by blast
  have 3: "\<exists>r. get_search [flash, fiona, batman]
              ((''page'', ''1'') # (''name'', ''f'') # (''gender'', ''Male'') # all_stats_zero) = Inr r
        \<and> map fst (pagination r) = [''page'', ''pageCount'']"
    using ex_search c by blast
  have 4: "\<exists>r. get_hero_comments example_store ''h1'' [(''page'', ''1'')] = Inr r
        \<and> map fst (pagination r) = [''page'', ''pageCount'']"
    using ex_comments a by blast
  have 5: "\<exists>r. get_heroes [flash, fiona, batman] [] = Inr r
        \<and> map fst (pagination r) = [''previousPage'', ''nextPage'', ''page'', ''pageCount'']"
    using ex_heroes d by blast
  show ?thesis using 1 2 3 4 5 by blast
qed

section \<open>Search by name\<close>

lemma by_name_literal_query:
  assumes "map_of q ''page'' = Some (digits_of_nat p)" and "1 \<le> p"
    and "body_prop body ''query'' = Str text" and "\<not> list_ex is_syntax_char text"
  shows "search_heroes_by_name hs q body =
           Inr \<lparr>data = take 10 (drop ((p - 1) * 10) (sort_key name
                         (filter (\<lambda>h. starts_with_ci text (name h)) hs))),
                count = length (filter (\<lambda>h. starts_with_ci text (name h)) hs),
                pagination = [(''page'', Fin (of_nat p)),
                              (''pageCount'', page_count (length (filter (\<lambda>h. starts_with_ci text (name h)) hs)) 10)]\<rparr>"
proof -
  let ?re = "map (\<lambda>c. (Lit c, One)) text"
  have re: "RegExp (''^'' @ to_string (Str text)) = Some ?re"
    using RegExp_literal[OF assms(4)] by simp
  have c: "list_all castable [Name ?re]" by simp
  have m: "\<And>h. list_all (matches h) [Name ?re] \<longleftrightarrow> starts_with_ci text (name h)"
    by (simp add: match_here_literal)
  show ?thesis
    unfolding search_heroes_by_name_def Let_def param_page[OF assms(1)] assms(3) re option.case
      hero_page[OF c assms(2)] hero_count[OF c] m
    by (simp add: limit_def DEFAULT_HEROES_PER_PAGE_def parseInt_page)
qed


text \<open>
  C9. The text of the query is not escaped: there is a text with pattern metacharacters,
  \<^verbatim>\<open>.*\<close>, and a hero whose name does not start with that text, that both the by-name
  search and the combined search return.
\<close>

theorem query_text_is_pattern_syntax:
  "\<exists>text h. list_ex is_syntax_char text \<and> \<not> starts_with_ci text (name h)
      \<and> search_heroes_by_name [h] [(''page'', ''1'')] [(''query'', Str text)] =
          Inr \<lparr>data = [h], count = 1, pagination = [(''page'', Fin 1), (''pageCount'', Fin 1)]\<rparr>
      \<and> get_search [h] ((''page'', ''1'') # (''name'', text) # (''gender'', gender h) # all_stats_zero) =
          Inr \<lparr>data = [h], count = 1, pagination = [(''page'', Fin 1), (''pageCount'', Fin 1)]\<rparr>"
proof (intro exI conjI)
  show "list_ex is_syntax_char ''.*''" by code_simp
  show "\<not> starts_with_ci ''.*'' (name flash)" by code_simp
  show "search_heroes_by_name [flash] [(''page'', ''1'')] [(''query'', Str ''.*'')] =
          Inr \<lparr>data = [flash], count = 1, pagination = [(''page'', Fin 1), (''pageCount'', Fin 1)]\<rparr>"
    by code_simp
  show "get_search [flash] ((''page'', ''1'') # (''name'', ''.*'') # (''gender'', gender flash) # all_stats_zero) =
          Inr \<lparr>data = [flash], count = 1, pagination = [(''page'', Fin 1), (''pageCount'', Fin 1)]\<rparr>"
    by code_simp
qed

text \<open>
  C6. On text without metacharacters the by-name search selects the heroes whose name
  starts with the text, letters compared without case (\<open>by_name_literal_query\<close>,
  \<open>flash_matches_fla\<close>). A body with no \<^verbatim>\<open>query\<close> is searched as the text
  \<^verbatim>\<open>undefined\<close>: with three heroes, none of which has such a name, nothing is found. The
  text \<^verbatim>\<open>.*\<close> finds all three, though no name starts with it.
\<close>

theorem by_name_missing_query:
  "to_string (body_prop [] ''query'') = ''undefined''
   \<and> search_heroes_by_name [flash, fiona, batman] [(''page'', ''1'')] [] =
       Inr \<lparr>data = [], count = 0, pagination = [(''page'', Fin 1), (''pageCount'', Fin 0)]\<rparr>
   \<and> search_heroes_by_name [flash, fiona, batman] [(''page'', ''1'')] [(''query'', Str ''.*'')] =
       Inr \<lparr>data = [batman, fiona, flash], count = 3, pagination = [(''page'', Fin 1), (''pageCount'', Fin 1)]\<rparr>
   \<and> \<not> starts_with_ci ''.*'' (name batman)"
  by code_simp

section \<open>The combined search\<close>

text \<open>
  C1. A query string without \<^verbatim>\<open>name\<close>, with the gender and the six thresholds set:
  the handler searches for names that start with \<^verbatim>\<open>undefined\<close> and returns nothing,
  while the same filter without its name clause holds of two of the three heroes.
\<close>

theorem search_omitted_name_excludes:
  "to_string (param ((''page'', ''1'') # (''gender'', ''Male'') # all_stats_zero) ''name'') = ''undefined''
   \<and> get_search [flash, fiona, batman] ((''page'', ''1'') # (''gender'', ''Male'') # all_stats_zero) =
       Inr \<lparr>data = [], count = 0, pagination = [(''page'', Fin 1), (''pageCount'', Fin 0)]\<rparr>
   \<and> Hero_find (tl (search_filter [] ((''page'', ''1'') # (''gender'', ''Male'') # all_stats_zero)))
        [flash, fiona, batman] = Inr [flash, batman]"
  by code_simp

text \<open>
  C3. \<^verbatim>\<open>GET /search\<close> counts the heroes that satisfy the name clause alone: with name
  \<^verbatim>\<open>f\<close> and gender \<^verbatim>\<open>Male\<close>, one hero satisfies the whole filter and is returned,
  and \<open>count\<close> is 2. The other list handlers count with the filter they search with
  (\<open>by_name_count\<close>, \<open>by_min_stats_count\<close>).
\<close>

theorem search_count_ignores_clauses:
  "get_search [flash, fiona, batman]
      ((''page'', ''1'') # (''name'', ''f'') # (''gender'', ''Male'') # all_stats_zero) =
     Inr \<lparr>data = [flash], count = 2, pagination = [(''page'', Fin 1), (''pageCount'', Fin 1)]\<rparr>
   \<and> map_option (\<lambda>qname. countDocuments (Hero_find
          (search_filter qname ((''page'', ''1'') # (''name'', ''f'') # (''gender'', ''Male'') # all_stats_zero))
          [flash, fiona, batman])) (RegExp ''^f'') = Some (Inr 1)"
  by code_simp


lemma by_name_count:
  assumes "search_heroes_by_name hs q body = Inr r"
  shows "\<exists>qname. RegExp (''^'' @ to_string (body_prop body ''query'')) = Some qname
           \<and> count r = length (filter (\<lambda>h. matches h (Name qname)) hs)"
  using assms
  by (auto simp: search_heroes_by_name_def Let_def await_def Hero_find_def countDocuments_def
      split: option.splits sum.splits)

lemma by_min_stats_count:
  assumes "search_heroes_by_min_stats hs q body = Inr r"
  shows "count r = length (filter (\<lambda>h. matches h (And (min_stats_conditions body))) hs)"
  using assms
  by (auto simp: search_heroes_by_min_stats_def Let_def await_def Hero_find_def countDocuments_def
      split: option.splits sum.splits if_splits)

lemma get_search_count:
  assumes "get_search hs q = Inr r"
  shows "\<exists>qname. RegExp (''^'' @ to_string (param q ''name'')) = Some qname
           \<and> count r = length (filter (\<lambda>h. matches h (Name qname)) hs)"
  using assms
  by (auto simp: get_search_def Let_def await_def Hero_find_def countDocuments_def
      split: option.splits sum.splits if_splits)

section \<open>An absent page\<close>

lemma RegExp_fla: "RegExp ''^fla'' = Some [(Lit CHR ''f'', One), (Lit CHR ''l'', One), (Lit CHR ''a'', One)]"
  by code_simp

lemma string_to_number_0: "string_to_number ''0'' = Fin 0"
  by code_simp

lemma string_to_number_abc: "string_to_number ''abc'' = NaN"
  by code_simp

lemma skip_NaN: "skip NaN xs = Inl (SkipError NaN)"
  by (simp add: skip_def)

lemma skip_of_Undefined: "skip_of Undefined k = NaN"
  by (simp add: skip_of_def js_sub_def)

lemma parseInt_IntV_1: "parseInt (IntV 1) = Fin 1"
  by code_simp

lemma get_heroes_default_page:
  assumes "isNaN (param q ''page'')"
  shows "get_heroes hs q =
           Inr \<lparr>data = take 10 (sort_key name hs), count = length hs,
                pagination = [(''previousPage'', Fin 1), (''nextPage'', Fin 2),
                              (''page'', Fin 1), (''pageCount'', page_count (length hs) 10)]\<rparr>"
proof -
  have sk: "skip_of (IntV 1) 10 = Fin (of_nat 0)" by (simp add: skip_of_def js_sub_def)
  show ?thesis
    unfolding get_heroes_def Let_def using assms
    by (simp add: parseInt_IntV_1 countDocuments_def DEFAULT_HEROES_PER_PAGE_def sk limit_def
        sort_name_asc_def del: of_nat_0)
qed

text \<open>
  C2. Only \<^verbatim>\<open>GET /heroes\<close> replaces a page that is absent or no Number by 1
  (\<open>get_heroes_default_page\<close>). In the other four handlers the skip computed from an
  absent page, or from the page \<^verbatim>\<open>abc\<close>, is \<open>NaN\<close>, not 0, and that is what reaches
  \<^verbatim>\<open>.skip\<close>.
\<close>

theorem absent_page_not_defaulted:
  "skip_of (param [] ''page'') DEFAULT_HEROES_PER_PAGE = NaN
   \<and> skip_of (param [] ''page'') DEFAULT_COMMENTS_PER_PAGE = NaN
   \<and> skip_of (param [(''page'', ''abc'')] ''page'') DEFAULT_HEROES_PER_PAGE = NaN
   \<and> search_heroes_by_name hs [] [(''query'', Str ''fla'')] = Inl (SkipError NaN)
   \<and> search_heroes_by_min_stats hs [] [(''speed'', IntV 100)] = Inl (SkipError NaN)
   \<and> get_search hs ((''name'', ''fla'') # (''gender'', ''Male'') # all_stats_zero) = Inl (SkipError NaN)
   \<and> get_hero_comments st hid [] = Inl (SkipError NaN)"
proof -
  have p: "param [] ''page'' = Undefined" by (simp add: param_def)
  have 1: "skip_of (param [(''page'', ''abc'')] ''page'') DEFAULT_HEROES_PER_PAGE = NaN"
    by (simp add: param_def skip_of_def js_sub_def string_to_number_abc)
  have 2: "search_heroes_by_name hs [] [(''query'', Str ''fla'')] = Inl (SkipError NaN)"
    by (simp add: search_heroes_by_name_def p skip_of_Undefined skip_NaN body_prop_def RegExp_fla
        Hero_find_def)
  have 3: "search_heroes_by_min_stats hs [] [(''speed'', IntV 100)] = Inl (SkipError NaN)"
    by (simp add: search_heroes_by_min_stats_def p skip_of_Undefined skip_NaN Hero_find_def
        min_stats_conditions_def)
  have q: "param ((''name'', ''fla'') # (''gender'', ''Male'') # all_stats_zero) ''page'' = Undefined"
      "param ((''name'', ''fla'') # (''gender'', ''Male'') # all_stats_zero) ''name'' = Str ''fla''"
    by (simp_all add: param_def all_stats_zero_def)
  have c: "list_all castable (search_filter re ((''name'', ''fla'') # (''gender'', ''Male'') # all_stats_zero))" for re
    by (simp add: search_filter_def param_def all_stats_zero_def string_to_number_0)
  have 4: "get_search hs ((''name'', ''fla'') # (''gender'', ''Male'') # all_stats_zero) = Inl (SkipError NaN)"
    unfolding get_search_def Let_def q
    by (simp add: skip_of_Undefined skip_NaN RegExp_fla Hero_find_def c)
  have 5: "get_hero_comments st hid [] = Inl (SkipError NaN)"
    by (simp add: get_hero_comments_def p skip_of_Undefined skip_NaN Comment_find_def)
  show ?thesis using 1 2 3 4 5 by (simp add: p skip_of_Undefined)
qed

section \<open>Comments\<close>

lemma foldr_insort_front:
  assumes "\<forall>y\<in>set ys. f a < f y \<and> f b < f y"
  shows "foldr (insort_key f) ys (a # b # zs) = a # b # foldr (insort_key f) ys zs"
  using assms by (induction ys) auto

lemma sort_key_two_newest:
  assumes "\<forall>y\<in>set ys. f a < f y" and "f b < f a"
  shows "sort_key f (ys @ [a, b]) = b # a # sort_key f ys"
proof -
  have "sort_key f (ys @ [a, b]) = foldr (insort_key f) ys (sort_key f [a, b])"
    by (simp add: sort_key_def)
  also have "sort_key f [a, b] = [b, a]" using assms(2) by (auto simp: not_le[symmetric])
  also have "foldr (insort_key f) ys [b, a] = b # a # foldr (insort_key f) ys []"
    using assms by (intro foldr_insort_front) auto
  finally show ?thesis by (simp add: sort_key_def)
qed

lemma skip_of_1: "skip_of (Str ''1'') k = Fin (of_nat 0)"
proof -
  have "string_to_number ''1'' = Fin 1" by code_simp
  then show ?thesis by (simp add: skip_of_def js_sub_def)
qed

lemma parseInt_1: "parseInt (Str ''1'') = Fin 1"
  by code_simp

text \<open>
  C8. Let \<open>H\<close> be the identifier of a hero \<open>h\<close> of the store. After a comment with
  text \<open>T1\<close> is created for \<open>H\<close> at time \<open>t1\<close>, later than every comment that
  \<open>H\<close> has, and then one with text \<open>T2\<close> at a later time \<open>t2\<close>, page 1 of the
  comments of \<open>H\<close> lists the second comment, then the first, then the newest of the
  older ones if there is one; each entry carries the text it was created with, and its
  hero reference is resolved to \<open>h\<close>.
\<close>

theorem comments_round_trip:
  assumes "List.find (\<lambda>x. hero_id x = H) (heroes st) = Some h"
    and "\<forall>c\<in>set (comments st). hero_ref c = H \<longrightarrow> createdAt c < t1"
    and "t1 < t2"
  shows "get_hero_comments
           (snd (post_hero_comments (snd (post_hero_comments st H T1 i1 t1)) H T2 i2 t2))
           H [(''page'', ''1'')] =
         Inr \<lparr>data = \<lparr>pc_id = i2, pc_hero = Some h, pc_text = T2, pc_createdAt = t2\<rparr> #
                     \<lparr>pc_id = i1, pc_hero = Some h, pc_text = T1, pc_createdAt = t1\<rparr> #
                     take 1 (sort_createdAt_desc
                       (map (populate (heroes st)) (filter (\<lambda>c. hero_ref c = H) (comments st)))),
              count = length (filter (\<lambda>c. hero_ref c = H) (comments st)) + 2,
              pagination = [(''page'', Fin 1),
                            (''pageCount'', page_count (length (filter (\<lambda>c. hero_ref c = H) (comments st)) + 2) 3)]\<rparr>
       \<and> (\<forall>e\<in>set (sort_createdAt_desc
                       (map (populate (heroes st)) (filter (\<lambda>c. hero_ref c = H) (comments st)))).
            pc_hero e = Some h \<and> (\<exists>c\<in>set (comments st). hero_ref c = H \<and> pc_text e = ctext c))"
proof -
  let ?c1 = "\<lparr>comment_id = i1, hero_ref = H, ctext = T1, createdAt = t1\<rparr>"
  let ?c2 = "\<lparr>comment_id = i2, hero_ref = H, ctext = T2, createdAt = t2\<rparr>"
  let ?st2 = "snd (post_hero_comments (snd (post_hero_comments st H T1 i1 t1)) H T2 i2 t2)"
  let ?old = "filter (\<lambda>c. hero_ref c = H) (comments st)"
  let ?pop = "populate (heroes st)"
  let ?key = "\<lambda>c. - int (pc_createdAt c)"
  have hs2: "heroes ?st2 = heroes st" by (simp add: post_hero_comments_def Let_def)
  have cs2: "comments ?st2 = comments st @ [?c1, ?c2]" by (simp add: post_hero_comments_def Let_def)
  have found: "filter (\<lambda>c. hero_ref c = H) (comments ?st2) = ?old @ [?c1, ?c2]"
    by (simp add: cs2)
  have p1: "?pop ?c1 = \<lparr>pc_id = i1, pc_hero = Some h, pc_text = T1, pc_createdAt = t1\<rparr>"
    and p2: "?pop ?c2 = \<lparr>pc_id = i2, pc_hero = Some h, pc_text = T2, pc_createdAt = t2\<rparr>"
    using assms(1) by (simp_all add: populate_def)
  have older: "\<forall>y\<in>set (map ?pop ?old). ?key (?pop ?c1) < ?key y"
    using assms(2) by (auto simp: populate_def)
  have newer: "?key (?pop ?c2) < ?key (?pop ?c1)"
    using assms(3) by (simp add: populate_def)
  have sorted: "sort_createdAt_desc (map ?pop (?old @ [?c1, ?c2])) =
                  ?pop ?c2 # ?pop ?c1 # sort_createdAt_desc (map ?pop ?old)"
    unfolding sort_createdAt_desc_def using sort_key_two_newest[OF older newer] by simp
  have res: "get_hero_comments ?st2 H [(''page'', ''1'')] =
         Inr \<lparr>data = ?pop ?c2 # ?pop ?c1 # take 1 (sort_createdAt_desc (map ?pop ?old)),
              count = length ?old + 2,
              pagination = [(''page'', Fin 1), (''pageCount'', page_count (length ?old + 2) 3)]\<rparr>"
    unfolding get_hero_comments_def Let_def hs2 Comment_find_def found
    by (simp add: param_def skip_of_1 sorted countDocuments_def limit_def
        DEFAULT_COMMENTS_PER_PAGE_def parseInt_1 del: of_nat_0 map_append)
  have all: "\<forall>e\<in>set (sort_createdAt_desc (map ?pop ?old)).
            pc_hero e = Some h \<and> (\<exists>c\<in>set (comments st). hero_ref c = H \<and> pc_text e = ctext c)"
    using assms(1) by (auto simp: sort_createdAt_desc_def populate_def)
  show ?thesis using res all unfolding p1 p2 by blast
qed

theorem comments_round_trip_witness:
  "List.find (\<lambda>x. hero_id x = ''h1'') (heroes example_store) = Some flash
   \<and> list_all (\<lambda>c. createdAt c < 10) (filter (\<lambda>c. hero_ref c = ''h1'') (comments example_store))
   \<and> (10::nat) < 11
   \<and> get_hero_comments
        (snd (post_hero_comments (snd (post_hero_comments example_store ''h1'' ''first'' 3 10))
           ''h1'' ''second'' 4 11))
        ''h1'' [(''page'', ''1'')] =
      Inr \<lparr>data = [\<lparr>pc_id = 4, pc_hero = Some flash, pc_text = ''second'', pc_createdAt = 11\<rparr>,
                   \<lparr>pc_id = 3, pc_hero = Some flash, pc_text = ''first'', pc_createdAt = 10\<rparr>,
                   \<lparr>pc_id = 1, pc_hero = Some flash, pc_text = ''old'', pc_createdAt = 5\<rparr>],
           count = 3, pagination = [(''page'', Fin 1), (''pageCount'', Fin 1)]\<rparr>"
proof -
  have a: "List.find (\<lambda>x. hero_id x = ''h1'') (heroes example_store) = Some flash" by code_simp
  have b: "\<forall>c\<in>set (comments example_store). hero_ref c = ''h1'' \<longrightarrow> createdAt c < 10"
    by (simp add: example_store_def)
  have b': "list_all (\<lambda>c. createdAt c < 10) (filter (\<lambda>c. hero_ref c = ''h1'') (comments example_store))"
    by (simp add: example_store_def)
  have c: "(10::nat) < 11" by simp
  have d: "take 1 (sort_createdAt_desc (map (populate (heroes example_store))
             (filter (\<lambda>c. hero_ref c = ''h1'') (comments example_store)))) =
           [\<lparr>pc_id = 1, pc_hero = Some flash, pc_text = ''old'', pc_createdAt = 5\<rparr>]"
    by code_simp
  have l: "length (filter (\<lambda>c. hero_ref c = ''h1'') (comments example_store)) + 2 = 3"
    by (simp add: example_store_def)
  have pc: "page_count 3 3 = Fin 1" by (simp add: page_count_div)
  show ?thesis
    using comments_round_trip [OF a b c, of "''first''" 3 "''second''" 4] a b' c
    unfolding d l pc by blast
qed


end
